theory Spec2Isabelle
  imports Main
begin

section \<open>The student record store of \<^verbatim>\<open>main.py\<close>\<close>

text \<open>
  The program keeps student records as lines \<^verbatim>\<open>roll,name,marks\<close> of the text file
  \<^verbatim>\<open>students.txt\<close> and offers four operations on it, each reading its arguments from
  standard input and reporting on standard output. The embedding threads one record
  through every operation: the text of the file (or its absence), the lines that
  standard input still holds, and what has been written to standard output so far.
  An exception is a value: an operation returns \<open>Inl e\<close> together with the world as
  the exception left it.

  Python strings are modelled as \<^typ>\<open>string\<close>; the characters of the text are
  taken from the range of \<^typ>\<open>char\<close> (code points below 256).
\<close>

subsection \<open>Text, lines and fields\<close>

abbreviation LF :: char where "LF \<equiv> CHR 0x0A"
abbreviation CR :: char where "CR \<equiv> CHR 0x0D"

text \<open>The characters that \<^verbatim>\<open>str.strip()\<close> removes (those with \<^verbatim>\<open>isspace()\<close> true).\<close>

definition whitespace :: "char list" where
  "whitespace = [CHR 0x09, CHR 0x0A, CHR 0x0B, CHR 0x0C, CHR 0x0D,
                 CHR 0x1C, CHR 0x1D, CHR 0x1E, CHR 0x1F, CHR 0x20, CHR 0x85, CHR 0xA0]"

definition is_space :: "char \<Rightarrow> bool" where
  "is_space c = (c \<in> set whitespace)"

definition strip :: "string \<Rightarrow> string" where
  "strip s = rev (dropWhile is_space (rev (dropWhile is_space s)))"

text \<open>\<^verbatim>\<open>s.split(",")\<close>: the pieces between the commas; the empty string gives one empty piece.\<close>

fun split_comma :: "string \<Rightarrow> string list" where
  "split_comma [] = [[]]"
| "split_comma (c # cs) =
     (if c = CHR '','' then [] # split_comma cs
      else (case split_comma cs of [] \<Rightarrow> [[c]] | p # ps \<Rightarrow> (c # p) # ps))"

text \<open>
  A file opened in text mode for reading has universal newlines: \<^verbatim>\<open>\r\n\<close> and a lone
  \<^verbatim>\<open>\r\<close> both arrive as \<^verbatim>\<open>\n\<close>.
\<close>

fun universal_newlines :: "string \<Rightarrow> string" where
  "universal_newlines [] = []"
| "universal_newlines [c] = (if c = CR then [LF] else [c])"
| "universal_newlines (c # d # cs) =
     (if c = CR \<and> d = LF then LF # universal_newlines cs
      else if c = CR then LF # universal_newlines (d # cs)
      else c # universal_newlines (d # cs))"

text \<open>
  Iterating over the file, or \<^verbatim>\<open>f.readlines()\<close>: the text is cut after every
  \<^verbatim>\<open>\n\<close>, each line keeps its \<^verbatim>\<open>\n\<close>, and a last line without one is a line too.
\<close>

fun readlines :: "string \<Rightarrow> string list" where
  "readlines [] = []"
| "readlines (c # cs) =
     (if c = LF then [LF] # readlines cs
      else (case readlines cs of [] \<Rightarrow> [[c]] | l # ls \<Rightarrow> (c # l) # ls))"

definition file_lines :: "string \<Rightarrow> string list" where
  "file_lines content = readlines (universal_newlines content)"

subsection \<open>Errors, the world, and the primitives of input and output\<close>

datatype error = EOFError | FileNotFoundError | ValueError

datatype event = Prompt string | Print string

record world =
  students_txt :: "string option"
  stdin :: "string list"
  stdout :: "event list"

text \<open>\<^verbatim>\<open>print(s)\<close>.\<close>

definition py_print :: "string \<Rightarrow> world \<Rightarrow> world" where
  "py_print s w = w\<lparr>stdout := stdout w @ [Print s]\<rparr>"

text \<open>\<^verbatim>\<open>input(prompt)\<close>: shows the prompt, then takes the next line of standard input,
  without its newline; at the end of input it raises \<^verbatim>\<open>EOFError\<close>.\<close>

definition py_input :: "string \<Rightarrow> world \<Rightarrow> (error + string) \<times> world" where
  "py_input prompt w =
     (let w' = w\<lparr>stdout := stdout w @ [Prompt prompt]\<rparr>
      in case stdin w of
           [] \<Rightarrow> (Inl EOFError, w')
         | l # ls \<Rightarrow> (Inr l, w'\<lparr>stdin := ls\<rparr>))"

text \<open>\<^verbatim>\<open>open("students.txt", "a")\<close> creates the file when it is absent.\<close>

definition open_append :: "world \<Rightarrow> world" where
  "open_append w =
     (case students_txt w of None \<Rightarrow> w\<lparr>students_txt := Some []\<rparr> | Some c \<Rightarrow> w)"

text \<open>\<^verbatim>\<open>open("students.txt", "w")\<close> creates the file or empties it.\<close>

definition open_write :: "world \<Rightarrow> world" where
  "open_write w = w\<lparr>students_txt := Some []\<rparr>"

text \<open>\<^verbatim>\<open>open("students.txt", "r")\<close> followed by reading all lines.\<close>

definition open_read :: "world \<Rightarrow> error + string list" where
  "open_read w =
     (case students_txt w of
        None \<Rightarrow> Inl FileNotFoundError
      | Some c \<Rightarrow> Inr (file_lines c))"

text \<open>\<^verbatim>\<open>f.write(s)\<close> on a file opened for appending or writing: the text goes to the end,
  as it is (the platform's line separator is taken to be \<^verbatim>\<open>\n\<close>).\<close>

definition fwrite :: "string \<Rightarrow> world \<Rightarrow> world" where
  "fwrite s w =
     w\<lparr>students_txt := Some (case students_txt w of None \<Rightarrow> s | Some c \<Rightarrow> c @ s)\<rparr>"

text \<open>\<^verbatim>\<open>roll, name, marks = parts\<close>: any number of parts other than three raises
  \<^verbatim>\<open>ValueError\<close>.\<close>

fun unpack3 :: "string list \<Rightarrow> error + (string \<times> string \<times> string)" where
  "unpack3 [a, b, c] = Inr (a, b, c)"
| "unpack3 parts = Inl ValueError"

text \<open>\<^verbatim>\<open>line.strip().split(",")\<close> unpacked into three names, as all three readers do.\<close>

definition parse_line :: "string \<Rightarrow> error + (string \<times> string \<times> string)" where
  "parse_line line = unpack3 (split_comma (strip line))"

subsection \<open>The four operations\<close>

definition add_student :: "world \<Rightarrow> (error + unit) \<times> world" where
  "add_student w0 =
     (let w1 = open_append w0 in
      case py_input ''Enter Roll No: '' w1 of
        (Inl e, w2) \<Rightarrow> (Inl e, w2)
      | (Inr roll, w2) \<Rightarrow>
     (case py_input ''Enter Name: '' w2 of
        (Inl e, w3) \<Rightarrow> (Inl e, w3)
      | (Inr name, w3) \<Rightarrow>
     (case py_input ''Enter Marks: '' w3 of
        (Inl e, w4) \<Rightarrow> (Inl e, w4)
      | (Inr marks, w4) \<Rightarrow>
          (Inr (), py_print ''Student added successfully!''
                     (fwrite (roll @ '','' @ name @ '','' @ marks @ [LF]) w4)))))"

fun view_loop :: "string list \<Rightarrow> world \<Rightarrow> (error + unit) \<times> world" where
  "view_loop [] w = (Inr (), w)"
| "view_loop (line # rest) w =
     (case parse_line line of
        Inl e \<Rightarrow> (Inl e, w)
      | Inr (roll, name, marks) \<Rightarrow>
          view_loop rest (py_print (roll @ '' | '' @ name @ '' | '' @ marks) w))"

text \<open>The body of the \<^verbatim>\<open>try\<close>.\<close>

definition view_body :: "world \<Rightarrow> (error + unit) \<times> world" where
  "view_body w =
     (case open_read w of
        Inl e \<Rightarrow> (Inl e, w)
      | Inr lines \<Rightarrow>
          view_loop lines
            (py_print ''-------------------'' (py_print (LF # ''Roll | Name | Marks'') w)))"

definition view_students :: "world \<Rightarrow> (error + unit) \<times> world" where
  "view_students w =
     (case view_body w of
        (Inl FileNotFoundError, w') \<Rightarrow> (Inr (), py_print ''No records found.'' w')
      | r \<Rightarrow> r)"

text \<open>The loop of the search; the result says whether \<^verbatim>\<open>found\<close> was set (the \<^verbatim>\<open>break\<close>).\<close>

fun search_loop :: "string \<Rightarrow> string list \<Rightarrow> world \<Rightarrow> (error + bool) \<times> world" where
  "search_loop roll_no [] w = (Inr False, w)"
| "search_loop roll_no (line # rest) w =
     (case parse_line line of
        Inl e \<Rightarrow> (Inl e, w)
      | Inr (roll, name, marks) \<Rightarrow>
          if roll = roll_no
          then (Inr True, py_print (''Found: '' @ roll @ '' | '' @ name @ '' | '' @ marks) w)
          else search_loop roll_no rest w)"

definition search_student :: "world \<Rightarrow> (error + unit) \<times> world" where
  "search_student w0 =
     (case py_input ''Enter Roll No to search: '' w0 of
        (Inl e, w1) \<Rightarrow> (Inl e, w1)
      | (Inr roll_no, w1) \<Rightarrow>
     (case open_read w1 of
        Inl e \<Rightarrow> (Inl e, w1)
      | Inr lines \<Rightarrow>
     (case search_loop roll_no lines w1 of
        (Inl e, w2) \<Rightarrow> (Inl e, w2)
      | (Inr found, w2) \<Rightarrow>
          (Inr (), if \<not> found then py_print ''Student not found.'' w2 else w2))))"

text \<open>The rewriting loop of the deletion, with the flag \<^verbatim>\<open>found\<close> as it stands.\<close>

fun delete_loop :: "string \<Rightarrow> string list \<Rightarrow> bool \<Rightarrow> world \<Rightarrow> (error + bool) \<times> world" where
  "delete_loop roll_no [] found w = (Inr found, w)"
| "delete_loop roll_no (line # rest) found w =
     (case parse_line line of
        Inl e \<Rightarrow> (Inl e, w)
      | Inr (roll, name, marks) \<Rightarrow>
          if roll \<noteq> roll_no
          then delete_loop roll_no rest found (fwrite line w)
          else delete_loop roll_no rest True w)"

definition delete_student :: "world \<Rightarrow> (error + unit) \<times> world" where
  "delete_student w0 =
     (case py_input ''Enter Roll No to delete: '' w0 of
        (Inl e, w1) \<Rightarrow> (Inl e, w1)
      | (Inr roll_no, w1) \<Rightarrow>
     (case open_read w1 of
        Inl e \<Rightarrow> (Inl e, w1)
      | Inr lines \<Rightarrow>
     (case delete_loop roll_no lines False (open_write w1) of
        (Inl e, w2) \<Rightarrow> (Inl e, w2)
      | (Inr found, w2) \<Rightarrow>
          (Inr (), if found then py_print ''Student deleted successfully.'' w2
                   else py_print ''Student not found.'' w2))))"

subsection \<open>Notions used to state the properties\<close>

text \<open>The text of the store; an absent file holds none.\<close>

definition content :: "world \<Rightarrow> string" where
  "content w = (case students_txt w of None \<Rightarrow> [] | Some c \<Rightarrow> c)"

text \<open>A line is well formed when the readers can unpack it, and then has a roll field
  and a row that the listing prints for it.\<close>

definition well_formed :: "string \<Rightarrow> bool" where
  "well_formed line = (case parse_line line of Inl e \<Rightarrow> False | Inr parts \<Rightarrow> True)"

definition roll_of :: "string \<Rightarrow> string option" where
  "roll_of line =
     (case parse_line line of Inl e \<Rightarrow> None | Inr (roll, name, marks) \<Rightarrow> Some roll)"

definition row :: "string \<Rightarrow> string" where
  "row line =
     (case parse_line line of
        Inl e \<Rightarrow> []
      | Inr (roll, name, marks) \<Rightarrow> roll @ '' | '' @ name @ '' | '' @ marks)"

definition found_row :: "string \<Rightarrow> string" where
  "found_row line = ''Found: '' @ row line"

text \<open>The record line that \<^verbatim>\<open>add_student\<close> writes for three fields.\<close>

definition record_line :: "string \<Rightarrow> string \<Rightarrow> string \<Rightarrow> string" where
  "record_line roll name marks = roll @ '','' @ name @ '','' @ marks @ [LF]"

text \<open>What an operation writes to standard output when it runs in \<open>w\<close>.\<close>

definition output_of :: "(world \<Rightarrow> (error + unit) \<times> world) \<Rightarrow> world \<Rightarrow> event list" where
  "output_of f w = drop (length (stdout w)) (stdout (snd (f w)))"

text \<open>A text whose last line, if any, ends in a newline.\<close>

definition terminated :: "string \<Rightarrow> bool" where
  "terminated c = (c = [] \<or> last c = LF)"

definition no_break :: "string \<Rightarrow> bool" where
  "no_break x = (CR \<notin> set x \<and> LF \<notin> set x)"

definition no_comma :: "string \<Rightarrow> bool" where
  "no_comma x = (CHR '','' \<notin> set x)"

text \<open>Fields that \<^verbatim>\<open>strip\<close> leaves alone at the two ends of a record line.\<close>

definition no_leading_space :: "string \<Rightarrow> bool" where
  "no_leading_space roll = (roll = [] \<or> \<not> is_space (hd roll))"

definition no_trailing_space :: "string \<Rightarrow> bool" where
  "no_trailing_space marks = (marks = [] \<or> \<not> is_space (last marks))"

text \<open>Worlds to run the operations in: without the file, or with a file of a given text;
  nothing has been written to standard output yet.\<close>

definition fresh :: "string list \<Rightarrow> world" where
  "fresh inputs = \<lparr>students_txt = None, stdin = inputs, stdout = []\<rparr>"

definition stored :: "string \<Rightarrow> string list \<Rightarrow> world" where
  "stored text inputs = \<lparr>students_txt = Some text, stdin = inputs, stdout = []\<rparr>"

text \<open>The shape of what \<^verbatim>\<open>readlines\<close> returns: no line is empty, a newline is the last
  character of its line, and every line but the last has one.\<close>

fun lines_ok :: "string list \<Rightarrow> bool" where
  "lines_ok [] = True"
| "lines_ok [l] = (l \<noteq> [] \<and> LF \<notin> set (butlast l))"
| "lines_ok (l # l' # ls) =
     (l \<noteq> [] \<and> LF \<notin> set (butlast l) \<and> last l = LF \<and> lines_ok (l' # ls))"

subsection \<open>Splitting at commas, newline translation and lines\<close>

lemma split_comma_nonempty: "split_comma s \<noteq> []"
  by (induction s) (auto split: list.splits)

lemma split_comma_no_comma: "CHR '','' \<notin> set a \<Longrightarrow> split_comma a = [a]"
  by (induction a) auto

lemma split_comma_append:
  "CHR '','' \<notin> set a \<Longrightarrow> split_comma (a @ CHR '','' # b) = a # split_comma b"
  by (induction a) auto

lemma length_split_comma:
  "length (split_comma s) = Suc (length (filter (\<lambda>c. c = CHR '','') s))"
  by (induction s) (auto split: list.splits)

lemma split_comma_pieces: "p \<in> set (split_comma s) \<Longrightarrow> CHR '','' \<notin> set p"
  by (induction s arbitrary: p) (auto split: list.splits if_splits)

lemma universal_newlines_no_CR: "CR \<notin> set (universal_newlines s)"
  by (induction s rule: universal_newlines.induct) auto

lemma universal_newlines_id: "CR \<notin> set s \<Longrightarrow> universal_newlines s = s"
  by (induction s rule: universal_newlines.induct) auto

lemma universal_newlines_append:
  "c = [] \<or> last c \<noteq> CR \<Longrightarrow> universal_newlines (c @ d) = universal_newlines c @ universal_newlines d"
proof (induction c rule: universal_newlines.induct)
  case 1
  then show ?case by simp
next
  case (2 c)
  then show ?case by (cases d) auto
next
  case (3 c d cs)
  then show ?case by (auto split: if_splits)
qed

lemma concat_readlines: "concat (readlines s) = s"
  by (induction s) (auto split: list.splits)

lemma readlines_Nil_iff: "readlines s = [] \<longleftrightarrow> s = []"
  by (cases s) (auto split: list.splits)

lemma readlines_one_line: "LF \<notin> set x \<Longrightarrow> readlines (x @ [LF]) = [x @ [LF]]"
  by (induction x) auto

lemma readlines_append:
  "c = [] \<or> last c = LF \<Longrightarrow> readlines (c @ d) = readlines c @ readlines d"
proof (induction c)
  case Nil
  then show ?case by simp
next
  case (Cons a c)
  show ?case
  proof (cases "c = []")
    case True
    with Cons.prems show ?thesis by simp
  next
    case False
    with Cons.prems have "last c = LF" by simp
    with Cons.IH have ih: "readlines (c @ d) = readlines c @ readlines d" by simp
    from False obtain l ls where "readlines c = l # ls"
      by (cases "readlines c") (simp_all add: readlines_Nil_iff)
    with ih show ?thesis by simp
  qed
qed

subsection \<open>Reading back what was written\<close>

lemma parse_line_error: "parse_line l = Inl e \<Longrightarrow> e = ValueError"
  unfolding parse_line_def by (cases "(split_comma (strip l))" rule: unpack3.cases) auto

lemma readlines_single: "l \<noteq> [] \<Longrightarrow> LF \<notin> set (butlast l) \<Longrightarrow> readlines l = [l]"
  by (induction l) (auto split: if_splits)

lemma readlines_line_cons:
  "l \<noteq> [] \<Longrightarrow> LF \<notin> set (butlast l) \<Longrightarrow> last l = LF \<Longrightarrow> readlines (l @ rest) = l # readlines rest"
  by (induction l) (auto split: if_splits)

lemma readlines_concat: "lines_ok ls \<Longrightarrow> readlines (concat ls) = ls"
  by (induction ls rule: lines_ok.induct) (simp_all add: readlines_single readlines_line_cons)

lemma lines_ok_readlines: "lines_ok (readlines s)"
proof (induction s)
  case Nil
  then show ?case by simp
next
  case (Cons a s)
  show ?case
  proof (cases "a = LF")
    case True
    with Cons show ?thesis by (cases "readlines s") simp_all
  next
    case False
    show ?thesis
    proof (cases "readlines s")
      case Nil
      with False show ?thesis by simp
    next
      case (Cons l ls)
      with False Cons.IH show ?thesis by (cases ls) auto
    qed
  qed
qed

lemma lines_ok_Cons:
  "l \<noteq> [] \<Longrightarrow> LF \<notin> set (butlast l) \<Longrightarrow> last l = LF \<Longrightarrow> lines_ok ls \<Longrightarrow> lines_ok (l # ls)"
  by (cases ls) simp_all

lemma lines_ok_filter: "lines_ok ls \<Longrightarrow> lines_ok (filter P ls)"
proof (induction ls rule: lines_ok.induct)
  case 1
  then show ?case by simp
next
  case (2 l)
  then show ?case by simp
next
  case (3 l l' ls)
  then show ?case by (auto intro: lines_ok_Cons)
qed

lemma lines_ok_takeWhile: "lines_ok ls \<Longrightarrow> lines_ok (takeWhile P ls)"
proof (induction ls rule: lines_ok.induct)
  case 1
  then show ?case by simp
next
  case (2 l)
  then show ?case by simp
next
  case (3 l l' ls)
  then show ?case by (auto intro: lines_ok_Cons)
qed

lemma file_lines_no_CR: "l \<in> set (file_lines c) \<Longrightarrow> CR \<notin> set l"
proof -
  assume "l \<in> set (file_lines c)"
  then have "set l \<subseteq> set (concat (file_lines c))" by auto
  then show ?thesis
    by (simp add: file_lines_def concat_readlines universal_newlines_no_CR subset_iff) (metis universal_newlines_no_CR)
qed

lemma lines_ok_file_lines: "lines_ok (file_lines c)"
  by (simp add: file_lines_def lines_ok_readlines)

lemma file_lines_concat:
  "lines_ok ls \<Longrightarrow> \<forall>l\<in>set ls. CR \<notin> set l \<Longrightarrow> file_lines (concat ls) = ls"
  by (simp add: file_lines_def universal_newlines_id readlines_concat)

lemma file_lines_sublist:
  "file_lines (concat (filter P (takeWhile Q (file_lines c)))) = filter P (takeWhile Q (file_lines c))"
  by (rule file_lines_concat)
     (auto intro: lines_ok_filter lines_ok_takeWhile lines_ok_file_lines
           dest: file_lines_no_CR set_takeWhileD)

subsection \<open>What the three loops compute\<close>

lemma well_formed_cases:
  obtains (bad) "parse_line l = Inl ValueError" "\<not> well_formed l" "roll_of l = None"
  | (good) roll name marks where "parse_line l = Inr (roll, name, marks)" "well_formed l"
      "roll_of l = Some roll" "row l = roll @ '' | '' @ name @ '' | '' @ marks"
proof (cases "parse_line l")
  case (Inl e)
  then have "parse_line l = Inl ValueError" using parse_line_error by blast
  then show ?thesis using bad by (simp add: well_formed_def roll_of_def)
next
  case (Inr t)
  then show ?thesis using good by (cases t) (simp add: well_formed_def roll_of_def row_def)
qed

lemma view_loop_result:
  "view_loop ls w =
     (if \<forall>l\<in>set ls. well_formed l then Inr () else Inl ValueError,
      w\<lparr>stdout := stdout w @ map (\<lambda>l. Print (row l)) (takeWhile well_formed ls)\<rparr>)"
proof (induction ls arbitrary: w)
  case Nil
  then show ?case by simp
next
  case (Cons l ls)
  show ?case
  proof (cases l rule: well_formed_cases)
    case bad
    then show ?thesis by simp
  next
    case (good roll name marks)
    then show ?thesis by (simp add: Cons.IH py_print_def)
  qed
qed

lemma search_loop_result:
  "search_loop q ls w =
     (case dropWhile (\<lambda>l. well_formed l \<and> roll_of l \<noteq> Some q) ls of
        [] \<Rightarrow> (Inr False, w)
      | l # rest \<Rightarrow>
          if well_formed l then (Inr True, py_print (found_row l) w)
          else (Inl ValueError, w))"
proof (induction ls)
  case Nil
  then show ?case by simp
next
  case (Cons l ls)
  show ?case
  proof (cases l rule: well_formed_cases)
    case bad
    then show ?thesis by simp
  next
    case (good roll name marks)
    then show ?thesis by (simp add: Cons.IH found_row_def)
  qed
qed

lemma delete_loop_result:
  "students_txt w = Some acc \<Longrightarrow>
   delete_loop q ls found w =
     (if \<forall>l\<in>set ls. well_formed l
      then Inr (found \<or> (\<exists>l\<in>set ls. roll_of l = Some q))
      else Inl ValueError,
      w\<lparr>students_txt :=
          Some (acc @ concat (filter (\<lambda>l. roll_of l \<noteq> Some q) (takeWhile well_formed ls)))\<rparr>)"
proof (induction ls arbitrary: w acc found)
  case Nil
  then show ?case by simp
next
  case (Cons l ls)
  show ?case
  proof (cases l rule: well_formed_cases)
    case bad
    with Cons.prems show ?thesis by simp
  next
    case (good roll name marks)
    show ?thesis
    proof (cases "roll = q")
      case True
      with good Cons.prems show ?thesis by (simp add: Cons.IH [of w acc True])
    next
      case False
      have "students_txt (fwrite l w) = Some (acc @ l)"
        using Cons.prems by (simp add: fwrite_def)
      from Cons.IH [OF this, of found] False good show ?thesis
        by (simp add: fwrite_def)
    qed
  qed
qed

subsection \<open>What the four operations do to the world\<close>

lemma view_students_absent:
  "students_txt w = None \<Longrightarrow> view_students w = (Inr (), py_print ''No records found.'' w)"
  by (simp add: view_students_def view_body_def open_read_def)

lemma view_students_present:
  "students_txt w = Some c \<Longrightarrow>
   view_students w =
     (if \<forall>l\<in>set (file_lines c). well_formed l then Inr () else Inl ValueError,
      w\<lparr>stdout := stdout w @ [Print (LF # ''Roll | Name | Marks''), Print ''-------------------'']
            @ map (\<lambda>l. Print (row l)) (takeWhile well_formed (file_lines c))\<rparr>)"
  by (simp add: view_students_def view_body_def open_read_def view_loop_result py_print_def)

lemma add_student_result:
  "stdin w = r # n # m # rest \<Longrightarrow>
   add_student w =
     (Inr (),
      w\<lparr>students_txt := Some (content w @ record_line r n m),
        stdin := rest,
        stdout := stdout w @ [Prompt ''Enter Roll No: '', Prompt ''Enter Name: '',
                              Prompt ''Enter Marks: '', Print ''Student added successfully!'']\<rparr>)"
  by (cases "students_txt w")
     (simp_all add: add_student_def open_append_def py_input_def fwrite_def py_print_def
        content_def record_line_def)

lemma search_student_result:
  "stdin w = q # rest \<Longrightarrow> students_txt w = Some c \<Longrightarrow>
   search_student w =
     (case dropWhile (\<lambda>l. well_formed l \<and> roll_of l \<noteq> Some q) (file_lines c) of
        [] \<Rightarrow> (Inr (), w\<lparr>stdin := rest,
                 stdout := stdout w @ [Prompt ''Enter Roll No to search: '', Print ''Student not found.'']\<rparr>)
      | l # ls \<Rightarrow>
          if well_formed l
          then (Inr (), w\<lparr>stdin := rest,
                 stdout := stdout w @ [Prompt ''Enter Roll No to search: '', Print (found_row l)]\<rparr>)
          else (Inl ValueError, w\<lparr>stdin := rest,
                 stdout := stdout w @ [Prompt ''Enter Roll No to search: '']\<rparr>))"
proof -
  assume a: "stdin w = q # rest" "students_txt w = Some c"
  define d where "d = dropWhile (\<lambda>l. well_formed l \<and> roll_of l \<noteq> Some q) (file_lines c)"
  have sl: "search_loop q (file_lines c) w' =
     (case d of
        [] \<Rightarrow> (Inr False, w')
      | l # rest \<Rightarrow>
          if well_formed l then (Inr True, py_print (found_row l) w')
          else (Inl ValueError, w'))" for w'
    by (simp add: search_loop_result d_def)
  show ?thesis
    unfolding d_def [symmetric] using a
    by (cases d)
       (simp_all add: search_student_def py_input_def open_read_def sl py_print_def)
qed

lemma search_student_absent:
  "stdin w = q # rest \<Longrightarrow> students_txt w = None \<Longrightarrow>
   search_student w =
     (Inl FileNotFoundError,
      w\<lparr>stdin := rest, stdout := stdout w @ [Prompt ''Enter Roll No to search: '']\<rparr>)"
  by (simp add: search_student_def py_input_def open_read_def)

lemma delete_student_result:
  "stdin w = q # rest \<Longrightarrow> students_txt w = Some c \<Longrightarrow>
   delete_student w =
     (if \<forall>l\<in>set (file_lines c). well_formed l then Inr () else Inl ValueError,
      w\<lparr>students_txt :=
          Some (concat (filter (\<lambda>l. roll_of l \<noteq> Some q) (takeWhile well_formed (file_lines c)))),
        stdin := rest,
        stdout := stdout w @ [Prompt ''Enter Roll No to delete: ''] @
          (if \<forall>l\<in>set (file_lines c). well_formed l
           then [Print (if \<exists>l\<in>set (file_lines c). roll_of l = Some q
                        then ''Student deleted successfully.'' else ''Student not found.'')]
           else [])\<rparr>)"
proof -
  assume a: "stdin w = q # rest" "students_txt w = Some c"
  have loop: "delete_loop q ls False w' =
     (if \<forall>l\<in>set ls. well_formed l
      then Inr (\<exists>l\<in>set ls. roll_of l = Some q) else Inl ValueError,
      w'\<lparr>students_txt :=
          Some (concat (filter (\<lambda>l. roll_of l \<noteq> Some q) (takeWhile well_formed ls)))\<rparr>)"
    if "students_txt w' = Some []" for ls w'
    using delete_loop_result [OF that, of q ls False] by simp
  show ?thesis
  proof (cases "\<forall>l\<in>set (file_lines c). well_formed l")
    case True
    with a show ?thesis
      by (simp add: delete_student_def py_input_def open_read_def loop open_write_def py_print_def)
  next
    case False
    with a show ?thesis
      by (simp add: delete_student_def py_input_def open_read_def loop open_write_def py_print_def)
  qed
qed

lemma add_student_eof:
  assumes "length (stdin w) < 3"
  shows "fst (add_student w) = Inl EOFError"
    and "Print ''Student added successfully!'' \<notin> set (output_of add_student w)"
    and "students_txt (snd (add_student w)) = Some (content w)"
proof -
  from assms consider "stdin w = []" | a where "stdin w = [a]" | a b where "stdin w = [a, b]"
    by (cases "stdin w" rule: unpack3.cases) auto
  then have "fst (add_student w) = Inl EOFError \<and>
      Print ''Student added successfully!'' \<notin> set (output_of add_student w) \<and>
      students_txt (snd (add_student w)) = Some (content w)"
  proof cases
    case 1
    then show ?thesis
      by (cases "students_txt w")
         (simp_all add: add_student_def open_append_def py_input_def output_of_def content_def)
  next
    case 2
    then show ?thesis
      by (cases "students_txt w")
         (simp_all add: add_student_def open_append_def py_input_def output_of_def content_def)
  next
    case 3
    then show ?thesis
      by (cases "students_txt w")
         (simp_all add: add_student_def open_append_def py_input_def output_of_def content_def)
  qed
  then show "fst (add_student w) = Inl EOFError"
    and "Print ''Student added successfully!'' \<notin> set (output_of add_student w)"
    and "students_txt (snd (add_student w)) = Some (content w)"
    by simp_all
qed

subsection \<open>Appending a record line to a terminated text\<close>

lemma universal_newlines_Nil_iff: "universal_newlines s = [] \<longleftrightarrow> s = []"
  by (induction s rule: universal_newlines.induct) auto

lemma universal_newlines_last:
  "s \<noteq> [] \<Longrightarrow> last s = LF \<Longrightarrow> last (universal_newlines s) = LF"
  by (induction s rule: universal_newlines.induct)
     (auto simp: universal_newlines_Nil_iff split: if_splits)

lemma terminated_universal_newlines: "terminated c \<Longrightarrow> terminated (universal_newlines c)"
proof (cases "c = []")
  case True
  then show ?thesis by (simp add: terminated_def)
next
  case False
  assume "terminated c"
  with False have "last c = LF" by (simp add: terminated_def)
  with False show ?thesis by (simp add: terminated_def universal_newlines_last)
qed

lemma file_lines_Nil: "file_lines [] = []"
  by (simp add: file_lines_def)

lemma file_lines_Nil_iff: "file_lines c = [] \<longleftrightarrow> c = []"
  by (simp add: file_lines_def readlines_Nil_iff universal_newlines_Nil_iff)

lemma file_lines_append:
  assumes "terminated c" "CR \<notin> set d"
  shows "file_lines (c @ d) = file_lines c @ readlines d"
proof -
  from assms(1) have "c = [] \<or> last c \<noteq> CR" by (auto simp: terminated_def)
  then have "universal_newlines (c @ d) = universal_newlines c @ d"
    using assms(2) by (simp add: universal_newlines_append universal_newlines_id)
  moreover have "universal_newlines c = [] \<or> last (universal_newlines c) = LF"
    using terminated_universal_newlines [OF assms(1)] by (simp add: terminated_def)
  ultimately show ?thesis by (simp add: file_lines_def readlines_append)
qed

lemma file_lines_add:
  assumes "terminated c" "no_break r" "no_break n" "no_break m"
  shows "file_lines (c @ record_line r n m) = file_lines c @ [record_line r n m]"
proof -
  have "CR \<notin> set (record_line r n m)"
    using assms by (simp add: record_line_def no_break_def)
  moreover have "readlines (record_line r n m) = [record_line r n m]"
    using assms readlines_one_line [of "r @ '','' @ n @ '','' @ m"]
    by (simp add: record_line_def no_break_def)
  ultimately show ?thesis using assms(1) by (simp add: file_lines_append)
qed

lemma file_lines_no_carriage_return:
  "CR \<notin> set c \<Longrightarrow> file_lines c = readlines c"
  by (simp add: file_lines_def universal_newlines_id)

subsection \<open>Parsing the line of a record\<close>

lemma comma_not_space: "\<not> is_space (CHR '','')"
  by (simp add: is_space_def whitespace_def)

lemma LF_is_space: "is_space LF"
  by (simp add: is_space_def whitespace_def)

lemma strip_line:
  assumes "x = [] \<or> \<not> is_space (hd x)" "x = [] \<or> \<not> is_space (last x)"
  shows "strip (x @ [LF]) = x"
proof (cases "x = []")
  case True
  then show ?thesis by (simp add: strip_def LF_is_space)
next
  case False
  with assms have h: "\<not> is_space (hd x)" and l: "\<not> is_space (last x)" by auto
  from False h have "dropWhile is_space (x @ [LF]) = x @ [LF]"
    by (cases x) simp_all
  moreover from False l have "dropWhile is_space (rev x) = rev x"
    by (cases "rev x") (simp_all add: last_rev [symmetric] hd_rev)
  ultimately show ?thesis by (simp add: strip_def LF_is_space)
qed

lemma strip_record_line:
  assumes "no_leading_space r" "no_trailing_space m"
  shows "strip (record_line r n m) = r @ '','' @ n @ '','' @ m"
proof -
  let ?x = "r @ '','' @ n @ '','' @ m"
  have "?x = [] \<or> \<not> is_space (hd ?x)"
    using assms(1) by (cases r) (simp_all add: no_leading_space_def comma_not_space)
  moreover have "?x = [] \<or> \<not> is_space (last ?x)"
    using assms(2) by (cases "m = []") (simp_all add: no_trailing_space_def comma_not_space)
  ultimately have "strip (?x @ [LF]) = ?x" by (rule strip_line)
  then show ?thesis by (simp add: record_line_def)
qed

lemma split_comma_three:
  "no_comma r \<Longrightarrow> no_comma n \<Longrightarrow> no_comma m \<Longrightarrow>
   split_comma (r @ '','' @ n @ '','' @ m) = [r, n, m]"
  by (simp add: no_comma_def split_comma_append split_comma_no_comma)

lemma parse_record_line:
  assumes "no_comma r" "no_comma n" "no_comma m" "no_leading_space r" "no_trailing_space m"
  shows "parse_line (record_line r n m) = Inr (r, n, m)"
  using assms split_comma_three [of r n m]
  by (simp add: parse_line_def strip_record_line)

lemma commas_dropWhile:
  "filter (\<lambda>c. c = CHR '','') (dropWhile is_space s) = filter (\<lambda>c. c = CHR '','') s"
  by (induction s) (auto simp: comma_not_space)

lemma commas_strip:
  "filter (\<lambda>c. c = CHR '','') (strip s) = filter (\<lambda>c. c = CHR '','') s"
  by (simp add: strip_def commas_dropWhile rev_filter [symmetric] del: rev_filter)

lemma unpack3_length: "unpack3 ps = Inr t \<Longrightarrow> length ps = 3"
  by (cases ps rule: unpack3.cases) auto

lemma well_formed_commas:
  "well_formed l \<Longrightarrow> length (filter (\<lambda>c. c = CHR '','') l) = 2"
proof -
  assume "well_formed l"
  then obtain t where "unpack3 (split_comma (strip l)) = Inr t"
    by (auto simp: well_formed_def parse_line_def split: sum.splits)
  then have "length (split_comma (strip l)) = 3" by (rule unpack3_length)
  then show ?thesis by (simp add: length_split_comma commas_strip)
qed

lemma record_line_with_comma:
  assumes "\<not> (no_comma r \<and> no_comma n \<and> no_comma m)"
  shows "\<not> well_formed (record_line r n m)"
proof
  assume "well_formed (record_line r n m)"
  then have "length (filter (\<lambda>c. c = CHR '','') (record_line r n m)) = 2"
    by (rule well_formed_commas)
  then have "filter (\<lambda>c. c = CHR '','') r = [] \<and> filter (\<lambda>c. c = CHR '','') n = []
      \<and> filter (\<lambda>c. c = CHR '','') m = []"
    by (simp add: record_line_def)
  with assms show False by (auto simp: no_comma_def filter_empty_conv)
qed

lemma parse_line_no_comma:
  assumes "parse_line l = Inr (a, b, c)"
  shows "no_comma a \<and> no_comma b \<and> no_comma c"
proof -
  from assms have u: "unpack3 (split_comma (strip l)) = Inr (a, b, c)"
    by (simp add: parse_line_def)
  then have "split_comma (strip l) = [a, b, c]"
    by (cases "split_comma (strip l)" rule: unpack3.cases) auto
  then have "a \<in> set (split_comma (strip l))" "b \<in> set (split_comma (strip l))"
    "c \<in> set (split_comma (strip l))" by simp_all
  then show ?thesis by (auto simp: no_comma_def dest: split_comma_pieces)
qed

lemma row_commas: "filter (\<lambda>c. c = CHR '','') (row l) = []"
proof (cases l rule: well_formed_cases)
  case bad
  then show ?thesis by (simp add: row_def)
next
  case (good roll name marks)
  from parse_line_no_comma [OF good(1)] good(4) show ?thesis
    by (auto simp: no_comma_def filter_empty_conv)
qed

subsection \<open>Deleting, and the scenario of a duplicated roll\<close>

lemma filter_all_well_formed:
  "\<forall>l\<in>set ls. well_formed l \<Longrightarrow> takeWhile well_formed ls = ls"
  by (simp add: takeWhile_eq_all_conv)

lemma delete_student_survivors:
  assumes "stdin w = q # rest" "students_txt w = Some c"
  shows "file_lines (content (snd (delete_student w)))
           = filter (\<lambda>l. roll_of l \<noteq> Some q) (takeWhile well_formed (file_lines c))"
  using assms by (simp add: delete_student_result content_def file_lines_sublist)



lemma content_add_student:
  "stdin w = r # n # m # rest \<Longrightarrow>
   content (snd (add_student w)) = content w @ record_line r n m"
  by (simp add: add_student_result content_def)



lemma roll_of_record_line:
  "no_comma r \<Longrightarrow> no_comma n \<Longrightarrow> no_comma m \<Longrightarrow> no_leading_space r \<Longrightarrow>
   no_trailing_space m \<Longrightarrow> roll_of (record_line r n m) = Some r"
  by (simp add: roll_of_def parse_record_line)

lemma well_formed_record_line:
  "no_comma r \<Longrightarrow> no_comma n \<Longrightarrow> no_comma m \<Longrightarrow> no_leading_space r \<Longrightarrow>
   no_trailing_space m \<Longrightarrow> well_formed (record_line r n m)"
  by (simp add: well_formed_def parse_record_line)

lemma row_record_line:
  "no_comma r \<Longrightarrow> no_comma n \<Longrightarrow> no_comma m \<Longrightarrow> no_leading_space r \<Longrightarrow>
   no_trailing_space m \<Longrightarrow> row (record_line r n m) = r @ '' | '' @ n @ '' | '' @ m"
  by (simp add: row_def parse_record_line)


subsection \<open>Adding, then reading\<close>

lemma add_then_lines:
  assumes "stdin w = r # n # m # rest" "terminated (content w)"
    "no_break r" "no_break n" "no_break m"
  shows "students_txt (snd (add_student w)) = Some (content w @ record_line r n m)"
    and "file_lines (content w @ record_line r n m) = file_lines (content w) @ [record_line r n m]"
    and "stdin (snd (add_student w)) = rest"
    and "fst (add_student w) = Inr ()"
  using assms by (simp_all add: add_student_result file_lines_add)

lemma roll_of_well_formed: "roll_of l = Some q \<Longrightarrow> well_formed l"
  by (cases l rule: well_formed_cases) simp_all

lemma dropWhile_first_match:
  assumes "\<forall>p\<in>set pre. well_formed p \<and> roll_of p \<noteq> Some q" "roll_of l = Some q"
  shows "dropWhile (\<lambda>l. well_formed l \<and> roll_of l \<noteq> Some q) (pre @ l # post) = l # post"
  using assms by (simp add: dropWhile_append2)

lemma search_student_found:
  assumes "stdin w = q # rest" "students_txt w = Some c" "file_lines c = pre @ l # post"
    "\<forall>p\<in>set pre. well_formed p \<and> roll_of p \<noteq> Some q" "roll_of l = Some q"
  shows "fst (search_student w) = Inr () \<and>
         output_of search_student w
           = [Prompt ''Enter Roll No to search: '', Print (found_row l)]"
proof -
  have d: "dropWhile (\<lambda>l. well_formed l \<and> roll_of l \<noteq> Some q) (file_lines c) = l # post"
    unfolding assms(3) using assms(4,5) by (rule dropWhile_first_match)
  have w: "well_formed l" using assms(5) by (rule roll_of_well_formed)
  show ?thesis
    by (simp add: search_student_result [OF assms(1,2)] d w output_of_def)
qed

lemma search_student_not_found:
  assumes "stdin w = q # rest" "students_txt w = Some c"
    "\<forall>p\<in>set (file_lines c). well_formed p \<and> roll_of p \<noteq> Some q"
  shows "fst (search_student w) = Inr () \<and>
         output_of search_student w
           = [Prompt ''Enter Roll No to search: '', Print ''Student not found.'']"
proof -
  have d: "dropWhile (\<lambda>l. well_formed l \<and> roll_of l \<noteq> Some q) (file_lines c) = []"
    using assms(3) by simp
  show ?thesis
    by (simp add: search_student_result [OF assms(1,2)] d output_of_def)
qed

lemma search_student_after_add:
  assumes "stdin v = r # n # m # r # rest" "terminated (content v)"
    "\<forall>p\<in>set (file_lines (content v)). well_formed p \<and> roll_of p \<noteq> Some r"
    "no_break r" "no_break n" "no_break m" "no_comma r" "no_comma n" "no_comma m"
    "no_leading_space r" "no_trailing_space m"
  shows "fst (search_student (snd (add_student v))) = Inr () \<and>
         output_of search_student (snd (add_student v))
           = [Prompt ''Enter Roll No to search: '',
              Print (''Found: '' @ r @ '' | '' @ n @ '' | '' @ m)]"
proof -
  let ?l = "record_line r n m"
  note add = add_then_lines [OF assms(1,2,4,5,6)]
  have rl: "roll_of ?l = Some r" and row: "row ?l = r @ '' | '' @ n @ '' | '' @ m"
    using assms by (simp_all only: roll_of_record_line row_record_line)
  have "file_lines (content v @ ?l) = file_lines (content v) @ ?l # []"
    by (rule add(2))
  from search_student_found [OF add(3) add(1) this assms(3) rl] row
  show ?thesis by (simp add: found_row_def)
qed

subsection \<open>Reading a store with a malformed line\<close>

lemma view_prints_no_comma:
  assumes "Print s \<in> set (output_of view_students w)"
  shows "filter (\<lambda>c. c = CHR '','') s = []"
proof (cases "students_txt w")
  case None
  with assms show ?thesis
    by (simp add: view_students_absent output_of_def py_print_def)
next
  case (Some c)
  with assms have "s = LF # ''Roll | Name | Marks'' \<or> s = ''-------------------'' \<or>
      (\<exists>l. s = row l)"
    by (auto simp: view_students_present output_of_def)
  then show ?thesis by (auto simp: row_commas)
qed

lemma search_prints_no_comma:
  assumes "stdin w = q # rest" "students_txt w = Some c"
    "Print s \<in> set (output_of search_student w)"
  shows "filter (\<lambda>c. c = CHR '','') s = []"
proof -
  define d where "d = dropWhile (\<lambda>l. well_formed l \<and> roll_of l \<noteq> Some q) (file_lines c)"
  note res = search_student_result [OF assms(1,2), folded d_def]
  have "s = ''Student not found.'' \<or> (\<exists>l. s = found_row l)"
    using assms(3) by (cases d) (auto simp: output_of_def res split: if_splits)
  then show ?thesis by (auto simp: found_row_def row_commas)
qed

lemma view_students_malformed:
  "students_txt w = Some c \<Longrightarrow> \<exists>l\<in>set (file_lines c). \<not> well_formed l \<Longrightarrow>
   fst (view_students w) = Inl ValueError"
  by (simp add: view_students_present)

lemma delete_student_malformed:
  "stdin w = q # rest \<Longrightarrow> students_txt w = Some c \<Longrightarrow>
   \<exists>l\<in>set (file_lines c). \<not> well_formed l \<Longrightarrow> fst (delete_student w) = Inl ValueError"
  by (simp add: delete_student_result)

lemma dropWhile_malformed:
  assumes "\<forall>p\<in>set ls. roll_of p \<noteq> Some q" "\<exists>l\<in>set ls. \<not> well_formed l"
  shows "\<exists>l rest. dropWhile (\<lambda>l. well_formed l \<and> roll_of l \<noteq> Some q) ls = l # rest
           \<and> \<not> well_formed l"
  using assms by (induction ls) auto

lemma search_student_malformed:
  assumes "stdin w = q # rest" "students_txt w = Some c"
    "\<forall>p\<in>set (file_lines c). roll_of p \<noteq> Some q" "\<exists>l\<in>set (file_lines c). \<not> well_formed l"
  shows "fst (search_student w) = Inl ValueError"
proof -
  from dropWhile_malformed [OF assms(3,4)] obtain l ls where
    "dropWhile (\<lambda>l. well_formed l \<and> roll_of l \<noteq> Some q) (file_lines c) = l # ls"
    "\<not> well_formed l" by blast
  then show ?thesis by (simp add: search_student_result [OF assms(1,2)])
qed

lemma parse_line_malformed: "\<not> well_formed l \<Longrightarrow> parse_line l = Inl ValueError"
  by (cases l rule: well_formed_cases) simp_all

subsection \<open>Unfolding the definitions on concrete worlds\<close>

lemmas eval_defs = fresh_def stored_def content_def terminated_def file_lines_def
  well_formed_def roll_of_def row_def found_row_def parse_line_def strip_def is_space_def
  whitespace_def no_break_def no_comma_def no_leading_space_def no_trailing_space_def
  record_line_def

text \<open>
  A field may hold a carriage return (\<^verbatim>\<open>input\<close> ends a line at \<^verbatim>\<open>\n\<close> only). With a comma
  on each side of it, one added record is read back as two well-formed lines, and the
  listing shows two rows that were never added, without any error.
\<close>

lemma comma_and_carriage_return_example:
  "fst (add_student (fresh [''1'', ''A,10'' @ [CR] @ ''2,B'', ''20''])) = Inr () \<and>
   fst (view_students (snd (add_student (fresh [''1'', ''A,10'' @ [CR] @ ''2,B'', ''20''])))) = Inr () \<and>
   output_of view_students (snd (add_student (fresh [''1'', ''A,10'' @ [CR] @ ''2,B'', ''20''])))
     = [Print (LF # ''Roll | Name | Marks''), Print ''-------------------'',
        Print ''1 | A | 10'', Print ''2 | B | 20'']"
  by (simp add: add_student_result view_students_present output_of_def eval_defs)

section \<open>The properties of the specification\<close>

subsection \<open>Listing\<close>

text \<open>
  Claim C6. When the backing file does not exist, the listing returns normally, its
  whole output is the message \<^verbatim>\<open>No records found.\<close>, and the file stays absent:
  the \<^verbatim>\<open>FileNotFoundError\<close> of \<^verbatim>\<open>open\<close> is caught, not propagated.
\<close>

theorem view_students_absent_file:
  "students_txt w = None \<Longrightarrow>
   fst (view_students w) = Inr () \<and>
   output_of view_students w = [Print ''No records found.''] \<and>
   students_txt (snd (view_students w)) = None"
  by (simp add: view_students_absent output_of_def py_print_def)

theorem view_students_absent_file_witness:
  "students_txt \<lparr>students_txt = None, stdin = [], stdout = []\<rparr> = None \<and>
   fst (view_students \<lparr>students_txt = None, stdin = [], stdout = []\<rparr>) = Inr () \<and>
   output_of view_students \<lparr>students_txt = None, stdin = [], stdout = []\<rparr>
     = [Print ''No records found.'']"
  using view_students_absent_file [of "\<lparr>students_txt = None, stdin = [], stdout = []\<rparr>"]
  by simp

text \<open>
  Claim C4, as stated, fails on an existing but empty file: \<^verbatim>\<open>open\<close> succeeds there, so
  the handler of \<^verbatim>\<open>FileNotFoundError\<close> never runs; the listing prints its two header
  lines and no message.
\<close>

theorem view_students_empty_file_counterexample:
  "fst (view_students \<lparr>students_txt = Some [], stdin = [], stdout = []\<rparr>) = Inr () \<and>
   output_of view_students \<lparr>students_txt = Some [], stdin = [], stdout = []\<rparr>
     = [Print (LF # ''Roll | Name | Marks''), Print ''-------------------''] \<and>
   Print ''No records found.''
     \<notin> set (output_of view_students \<lparr>students_txt = Some [], stdin = [], stdout = []\<rparr>)"
  by (simp add: view_students_present output_of_def file_lines_Nil)

text \<open>
  Claim C4, amended. The listing of a store without records never fails. When the
  backing file is absent its output is \<^verbatim>\<open>No records found.\<close>; when the file exists and
  is empty its output is the two header lines only.
\<close>

theorem view_students_no_records:
  "(students_txt w = None \<longrightarrow>
      fst (view_students w) = Inr () \<and>
      output_of view_students w = [Print ''No records found.'']) \<and>
   (students_txt w = Some [] \<longrightarrow>
      fst (view_students w) = Inr () \<and>
      output_of view_students w
        = [Print (LF # ''Roll | Name | Marks''), Print ''-------------------''])"
  by (simp add: view_students_absent view_students_present output_of_def py_print_def
        file_lines_Nil)

theorem view_students_no_records_witness:
  "students_txt \<lparr>students_txt = None, stdin = [], stdout = []\<rparr> = None \<and>
   output_of view_students \<lparr>students_txt = None, stdin = [], stdout = []\<rparr>
     = [Print ''No records found.''] \<and>
   students_txt \<lparr>students_txt = Some [], stdin = [], stdout = []\<rparr> = Some [] \<and>
   output_of view_students \<lparr>students_txt = Some [], stdin = [], stdout = []\<rparr>
     = [Print (LF # ''Roll | Name | Marks''), Print ''-------------------'']"
  using view_students_no_records [of "\<lparr>students_txt = None, stdin = [], stdout = []\<rparr>"]
        view_students_no_records [of "\<lparr>students_txt = Some [], stdin = [], stdout = []\<rparr>"]
  by simp

text \<open>
  Claim C9. The listing leaves the file (and standard input) as they were and only
  extends standard output; a second listing right after the first ends the same way
  (normally, or with the same exception) and writes the same output again.
\<close>

theorem view_students_reads_only:
  "students_txt (snd (view_students w)) = students_txt w \<and>
   stdin (snd (view_students w)) = stdin w \<and>
   stdout (snd (view_students w)) = stdout w @ output_of view_students w \<and>
   fst (view_students (snd (view_students w))) = fst (view_students w) \<and>
   output_of view_students (snd (view_students w)) = output_of view_students w"
  by (cases "students_txt w")
     (simp_all add: output_of_def view_students_absent view_students_present py_print_def)

subsection \<open>Searching without a file\<close>

text \<open>
  Claim C5. When the backing file is absent, a search that has read its roll number ends
  with the \<^verbatim>\<open>FileNotFoundError\<close> of \<^verbatim>\<open>open\<close>, having written nothing but its prompt,
  whereas the listing in the same world returns normally.
\<close>

theorem search_student_absent_file:
  "students_txt w = None \<Longrightarrow> stdin w = q # rest \<Longrightarrow>
   fst (search_student w) = Inl FileNotFoundError \<and>
   output_of search_student w = [Prompt ''Enter Roll No to search: ''] \<and>
   students_txt (snd (search_student w)) = None \<and>
   fst (view_students w) = Inr ()"
  by (simp add: search_student_absent view_students_absent output_of_def)

theorem search_student_absent_file_witness:
  "students_txt \<lparr>students_txt = None, stdin = [''7''], stdout = []\<rparr> = None \<and>
   stdin \<lparr>students_txt = None, stdin = [''7''], stdout = []\<rparr> = ''7'' # [] \<and>
   fst (search_student \<lparr>students_txt = None, stdin = [''7''], stdout = []\<rparr>)
     = Inl FileNotFoundError \<and>
   fst (view_students \<lparr>students_txt = None, stdin = [''7''], stdout = []\<rparr>) = Inr ()"
  using search_student_absent_file
          [of "\<lparr>students_txt = None, stdin = [''7''], stdout = []\<rparr>" "''7''" "[]"]
  by simp

subsection \<open>Adding\<close>

text \<open>
  Claim C8, as stated, fails in its last clause: adding has no handler, so it does not
  always report success. When standard input ends after the roll and the name,
  \<^verbatim>\<open>input\<close> raises \<^verbatim>\<open>EOFError\<close>; the exception reaches the caller, no success message
  is printed, and the file, created by \<^verbatim>\<open>open\<close>, holds no line.
\<close>

theorem add_student_end_of_input_counterexample:
  "fst (add_student (fresh [''1'', ''A''])) = Inl EOFError \<and>
   output_of add_student (fresh [''1'', ''A''])
     = [Prompt ''Enter Roll No: '', Prompt ''Enter Name: '', Prompt ''Enter Marks: ''] \<and>
   Print ''Student added successfully!'' \<notin> set (output_of add_student (fresh [''1'', ''A''])) \<and>
   students_txt (snd (add_student (fresh [''1'', ''A'']))) = Some []"
  by (simp add: add_student_def open_append_def py_input_def output_of_def fresh_def)

text \<open>
  Claim C8, amended. Given its three input lines, adding returns normally and reports
  success; the file then exists and its text is the earlier text (none, if the file was
  absent) followed by \<^verbatim>\<open>roll,name,marks\<close> and a newline. When the earlier text ended
  its last line and the fields hold no line break, the lines read back are the earlier
  lines, unchanged, followed by exactly that one line. When standard input holds fewer
  than three lines, adding ends with \<^verbatim>\<open>EOFError\<close> instead: it prints no success message
  and appends nothing, though the file has been created.
\<close>

theorem add_student_appends_or_raises:
  "(stdin w = r # n # m # rest \<longrightarrow>
      fst (add_student w) = Inr () \<and>
      students_txt (snd (add_student w)) = Some (content w @ r @ '','' @ n @ '','' @ m @ [LF]) \<and>
      stdin (snd (add_student w)) = rest \<and>
      output_of add_student w
        = [Prompt ''Enter Roll No: '', Prompt ''Enter Name: '', Prompt ''Enter Marks: '',
           Print ''Student added successfully!''] \<and>
      (terminated (content w) \<and> no_break r \<and> no_break n \<and> no_break m \<longrightarrow>
         file_lines (content (snd (add_student w)))
           = file_lines (content w) @ [r @ '','' @ n @ '','' @ m @ [LF]])) \<and>
   (length (stdin w) < 3 \<longrightarrow>
      fst (add_student w) = Inl EOFError \<and>
      Print ''Student added successfully!'' \<notin> set (output_of add_student w) \<and>
      students_txt (snd (add_student w)) = Some (content w))"
proof (intro conjI impI)
  assume in0: "stdin w = r # n # m # rest"
  show "fst (add_student w) = Inr ()"
    using in0 by (simp add: add_student_result)
  show "students_txt (snd (add_student w)) = Some (content w @ r @ '','' @ n @ '','' @ m @ [LF])"
    using in0 by (simp add: add_student_result record_line_def)
  show "stdin (snd (add_student w)) = rest"
    using in0 by (simp add: add_student_result)
  show "output_of add_student w
      = [Prompt ''Enter Roll No: '', Prompt ''Enter Name: '', Prompt ''Enter Marks: '',
         Print ''Student added successfully!'']"
    using in0 by (simp add: add_student_result output_of_def)
  assume "terminated (content w) \<and> no_break r \<and> no_break n \<and> no_break m"
  then show "file_lines (content (snd (add_student w)))
      = file_lines (content w) @ [r @ '','' @ n @ '','' @ m @ [LF]]"
    using in0 file_lines_add [of "content w" r n m]
    by (simp add: add_student_result content_def record_line_def)
next
  assume short: "length (stdin w) < 3"
  show "fst (add_student w) = Inl EOFError" using short by (rule add_student_eof)
  show "Print ''Student added successfully!'' \<notin> set (output_of add_student w)"
    using short by (rule add_student_eof)
  show "students_txt (snd (add_student w)) = Some (content w)"
    using short by (rule add_student_eof)
qed

theorem add_student_appends_or_raises_witness:
  "stdin (stored (''1,A,10'' @ [LF]) [''2'', ''B'', ''20'']) = ''2'' # ''B'' # ''20'' # [] \<and>
   terminated (content (stored (''1,A,10'' @ [LF]) [''2'', ''B'', ''20''])) \<and>
   no_break ''2'' \<and> no_break ''B'' \<and> no_break ''20'' \<and>
   fst (add_student (stored (''1,A,10'' @ [LF]) [''2'', ''B'', ''20''])) = Inr () \<and>
   students_txt (snd (add_student (stored (''1,A,10'' @ [LF]) [''2'', ''B'', ''20''])))
     = Some (''1,A,10'' @ [LF] @ ''2,B,20'' @ [LF]) \<and>
   file_lines (content (snd (add_student (stored (''1,A,10'' @ [LF]) [''2'', ''B'', ''20'']))))
     = [''1,A,10'' @ [LF], ''2,B,20'' @ [LF]] \<and>
   length (stdin (stored (''1,A,10'' @ [LF]) [''2'', ''B''])) < 3 \<and>
   fst (add_student (stored (''1,A,10'' @ [LF]) [''2'', ''B''])) = Inl EOFError \<and>
   students_txt (snd (add_student (stored (''1,A,10'' @ [LF]) [''2'', ''B''])))
     = Some (''1,A,10'' @ [LF])"
  using add_student_appends_or_raises
          [of "stored (''1,A,10'' @ [LF]) [''2'', ''B'', ''20'']" "''2''" "''B''" "''20''" "[]"]
        add_student_appends_or_raises
          [of "stored (''1,A,10'' @ [LF]) [''2'', ''B'']" "''2''" "''B''" "''20''" "[]"]
  by (simp add: eval_defs)

subsection \<open>Deleting\<close>



text \<open>
  Claim C10, as stated, fails in two ways. A line stored with the ending \<^verbatim>\<open>\r\n\<close> is
  read as ending in \<^verbatim>\<open>\n\<close> and written back so: after deleting roll \<^verbatim>\<open>2\<close> the
  survivor is \<^verbatim>\<open>1,A,10\n\<close>, not the stored \<^verbatim>\<open>1,A,10\r\n\<close>. And a line that does not
  unpack ends the rewriting with \<^verbatim>\<open>ValueError\<close>: the line \<^verbatim>\<open>3,C,30\<close> behind it is lost
  although its roll is not the one deleted.
\<close>

theorem delete_student_line_ending_counterexample:
  "fst (delete_student (stored (''1,A,10'' @ [CR, LF] @ ''2,B,20'' @ [CR, LF]) [''2''])) = Inr () \<and>
   students_txt (snd (delete_student
       (stored (''1,A,10'' @ [CR, LF] @ ''2,B,20'' @ [CR, LF]) [''2''])))
     = Some (''1,A,10'' @ [LF]) \<and>
   students_txt (snd (delete_student
       (stored (''1,A,10'' @ [CR, LF] @ ''2,B,20'' @ [CR, LF]) [''2''])))
     \<noteq> Some (''1,A,10'' @ [CR, LF]) \<and>
   fst (delete_student
       (stored (''1,A,10'' @ [LF] @ ''bad'' @ [LF] @ ''3,C,30'' @ [LF]) [''2''])) = Inl ValueError \<and>
   students_txt (snd (delete_student
       (stored (''1,A,10'' @ [LF] @ ''bad'' @ [LF] @ ''3,C,30'' @ [LF]) [''2''])))
     = Some (''1,A,10'' @ [LF])"
  by (simp add: delete_student_result eval_defs)

text \<open>
  Claim C10, amended. A deletion that has read its roll number from a present file
  rewrites the file as the concatenation, in their order, of the lines with another
  roll among the lines it read before the first line that does not unpack into three
  fields, each exactly as it was read in text mode; read again, the file gives those
  lines and no others. When every line unpacks, the deletion returns normally and these
  are all the lines read with another roll: only matching lines are omitted. When
  moreover the stored text holds no carriage return, the lines read are the stored text
  itself cut after each newline, so every surviving line is the stored line character
  for character, its newline included. When some line does not unpack, the deletion
  ends with \<^verbatim>\<open>ValueError\<close>.
\<close>

theorem delete_student_keeps_others:
  assumes "stdin w = q # rest" and "students_txt w = Some c"
  shows "students_txt (snd (delete_student w))
           = Some (concat (filter (\<lambda>l. roll_of l \<noteq> Some q)
                     (takeWhile well_formed (file_lines c)))) \<and>
         file_lines (content (snd (delete_student w)))
           = filter (\<lambda>l. roll_of l \<noteq> Some q) (takeWhile well_formed (file_lines c)) \<and>
         ((\<forall>l\<in>set (file_lines c). well_formed l) \<longrightarrow>
            fst (delete_student w) = Inr () \<and>
            students_txt (snd (delete_student w))
              = Some (concat (filter (\<lambda>l. roll_of l \<noteq> Some q) (file_lines c))) \<and>
            file_lines (content (snd (delete_student w)))
              = filter (\<lambda>l. roll_of l \<noteq> Some q) (file_lines c)) \<and>
         ((\<forall>l\<in>set (file_lines c). well_formed l) \<and> CR \<notin> set c \<longrightarrow>
            concat (readlines c) = c \<and>
            students_txt (snd (delete_student w))
              = Some (concat (filter (\<lambda>l. roll_of l \<noteq> Some q) (readlines c)))) \<and>
         ((\<exists>l\<in>set (file_lines c). \<not> well_formed l) \<longrightarrow>
            fst (delete_student w) = Inl ValueError)"
proof -
  note res = delete_student_result [OF assms]
  have 1: "students_txt (snd (delete_student w))
      = Some (concat (filter (\<lambda>l. roll_of l \<noteq> Some q) (takeWhile well_formed (file_lines c))))"
    by (simp add: res)
  have 2: "file_lines (content (snd (delete_student w)))
      = filter (\<lambda>l. roll_of l \<noteq> Some q) (takeWhile well_formed (file_lines c))"
    by (rule delete_student_survivors [OF assms])
  have 3: "fst (delete_student w) = Inr () \<and>
      students_txt (snd (delete_student w))
        = Some (concat (filter (\<lambda>l. roll_of l \<noteq> Some q) (file_lines c))) \<and>
      file_lines (content (snd (delete_student w)))
        = filter (\<lambda>l. roll_of l \<noteq> Some q) (file_lines c)"
    if wf: "\<forall>l\<in>set (file_lines c). well_formed l"
  proof -
    have "fst (delete_student w) = Inr ()" using wf by (simp add: res)
    moreover have tw: "takeWhile well_formed (file_lines c) = file_lines c"
      using wf by (rule filter_all_well_formed)
    moreover note 1 [unfolded tw] 2 [unfolded tw]
    ultimately show ?thesis by (intro conjI)
  qed
  have 4: "concat (readlines c) = c \<and>
      students_txt (snd (delete_student w))
        = Some (concat (filter (\<lambda>l. roll_of l \<noteq> Some q) (readlines c)))"
    if h: "(\<forall>l\<in>set (file_lines c). well_formed l) \<and> CR \<notin> set c"
  proof -
    from h have "file_lines c = readlines c" by (simp add: file_lines_no_carriage_return)
    with 3 h show ?thesis by (simp add: concat_readlines)
  qed
  have 5: "fst (delete_student w) = Inl ValueError"
    if "\<exists>l\<in>set (file_lines c). \<not> well_formed l"
    using that by (simp add: res)
  from 3 have i3: "(\<forall>l\<in>set (file_lines c). well_formed l) \<longrightarrow>
      fst (delete_student w) = Inr () \<and>
      students_txt (snd (delete_student w))
        = Some (concat (filter (\<lambda>l. roll_of l \<noteq> Some q) (file_lines c))) \<and>
      file_lines (content (snd (delete_student w)))
        = filter (\<lambda>l. roll_of l \<noteq> Some q) (file_lines c)"
    by (rule impI)
  from 4 have i4: "(\<forall>l\<in>set (file_lines c). well_formed l) \<and> CR \<notin> set c \<longrightarrow>
      concat (readlines c) = c \<and>
      students_txt (snd (delete_student w))
        = Some (concat (filter (\<lambda>l. roll_of l \<noteq> Some q) (readlines c)))"
    by (rule impI)
  from 5 have i5: "(\<exists>l\<in>set (file_lines c). \<not> well_formed l) \<longrightarrow>
      fst (delete_student w) = Inl ValueError"
    by (rule impI)
  show ?thesis
    by (intro conjI) (rule 1, rule 2, rule i3, rule i4, rule i5)
qed

theorem delete_student_keeps_others_witness:
  "stdin (stored (''1,A,10'' @ [LF] @ ''2,B,20'' @ [LF] @ ''3,C,30'' @ [LF]) [''2'']) = ''2'' # [] \<and>
   CR \<notin> set (''1,A,10'' @ [LF] @ ''2,B,20'' @ [LF] @ ''3,C,30'' @ [LF]) \<and>
   file_lines (''1,A,10'' @ [LF] @ ''2,B,20'' @ [LF] @ ''3,C,30'' @ [LF])
     = [''1,A,10'' @ [LF], ''2,B,20'' @ [LF], ''3,C,30'' @ [LF]] \<and>
   well_formed (''1,A,10'' @ [LF]) \<and> well_formed (''2,B,20'' @ [LF]) \<and>
   well_formed (''3,C,30'' @ [LF]) \<and>
   fst (delete_student (stored (''1,A,10'' @ [LF] @ ''2,B,20'' @ [LF] @ ''3,C,30'' @ [LF]) [''2'']))
     = Inr () \<and>
   students_txt (snd (delete_student
       (stored (''1,A,10'' @ [LF] @ ''2,B,20'' @ [LF] @ ''3,C,30'' @ [LF]) [''2''])))
     = Some (''1,A,10'' @ [LF] @ ''3,C,30'' @ [LF]) \<and>
   file_lines (content (snd (delete_student
       (stored (''1,A,10'' @ [LF] @ ''2,B,20'' @ [LF] @ ''3,C,30'' @ [LF]) [''2'']))))
     = [''1,A,10'' @ [LF], ''3,C,30'' @ [LF]] \<and>
   \<not> well_formed (''bad'' @ [LF]) \<and>
   fst (delete_student (stored (''1,A,10'' @ [LF] @ ''bad'' @ [LF] @ ''3,C,30'' @ [LF]) [''2'']))
     = Inl ValueError \<and>
   students_txt (snd (delete_student
       (stored (''1,A,10'' @ [LF] @ ''bad'' @ [LF] @ ''3,C,30'' @ [LF]) [''2''])))
     = Some (''1,A,10'' @ [LF])"
  using delete_student_keeps_others
    [of "stored (''1,A,10'' @ [LF] @ ''2,B,20'' @ [LF] @ ''3,C,30'' @ [LF]) [''2'']" "''2''" "[]"
        "''1,A,10'' @ [LF] @ ''2,B,20'' @ [LF] @ ''3,C,30'' @ [LF]"]
    delete_student_keeps_others
    [of "stored (''1,A,10'' @ [LF] @ ''bad'' @ [LF] @ ''3,C,30'' @ [LF]) [''2'']" "''2''" "[]"
        "''1,A,10'' @ [LF] @ ''bad'' @ [LF] @ ''3,C,30'' @ [LF]"]
  by (simp add: eval_defs)

subsection \<open>Adding and then reading\<close>

text \<open>
  Claim C2, as stated, fails for a name with a comma: after adding roll \<^verbatim>\<open>1\<close>, name
  \<^verbatim>\<open>A,B\<close>, marks \<^verbatim>\<open>10\<close> to an absent file, the stored line has four pieces, the
  listing ends with \<^verbatim>\<open>ValueError\<close>, and the row \<^verbatim>\<open>1 | A,B | 10\<close> is not in its output.
\<close>

theorem add_then_view_comma_counterexample:
  "fst (add_student (fresh [''1'', ''A,B'', ''10''])) = Inr () \<and>
   students_txt (snd (add_student (fresh [''1'', ''A,B'', ''10''])))
     = Some (''1,A,B,10'' @ [LF]) \<and>
   fst (view_students (snd (add_student (fresh [''1'', ''A,B'', ''10''])))) = Inl ValueError \<and>
   Print ''1 | A,B | 10''
     \<notin> set (output_of view_students (snd (add_student (fresh [''1'', ''A,B'', ''10'']))))"
  by (simp add: add_student_result view_students_present output_of_def eval_defs)

text \<open>
  Claim C2, amended. Let the fields hold no comma and no line break, the roll not begin
  and the marks not end with whitespace, and let the store be absent or hold a
  newline-terminated text whose lines all unpack into three fields. Then adding and
  listing both return normally, and the listing prints the header, the rows of the earlier
  lines, and last the row \<^verbatim>\<open>roll | name | marks\<close>, exactly.
\<close>

theorem add_then_view_students:
  assumes "stdin w = r # n # m # rest"
    and "terminated (content w)"
    and "\<forall>l\<in>set (file_lines (content w)). well_formed l"
    and "no_break r" and "no_break n" and "no_break m"
    and "no_comma r" and "no_comma n" and "no_comma m"
    and "no_leading_space r" and "no_trailing_space m"
  shows "fst (add_student w) = Inr () \<and>
         fst (view_students (snd (add_student w))) = Inr () \<and>
         Print (r @ '' | '' @ n @ '' | '' @ m)
           \<in> set (output_of view_students (snd (add_student w))) \<and>
         output_of view_students (snd (add_student w))
           = [Print (LF # ''Roll | Name | Marks''), Print ''-------------------''] @
             map (\<lambda>l. Print (row l)) (file_lines (content w)) @
             [Print (r @ '' | '' @ n @ '' | '' @ m)]"
proof -
  let ?w1 = "snd (add_student w)" and ?l = "record_line r n m"
  note add = add_then_lines [OF assms(1,2,4,5,6)]
  have wl: "well_formed ?l" and rl: "row ?l = r @ '' | '' @ n @ '' | '' @ m"
    using assms by (simp_all only: well_formed_record_line row_record_line)
  have wf: "\<forall>l\<in>set (file_lines (content w @ ?l)). well_formed l"
    unfolding add(2) using assms(3) wl by simp
  then have tw: "takeWhile well_formed (file_lines (content w @ ?l)) = file_lines (content w) @ [?l]"
    unfolding add(2) by (simp only: filter_all_well_formed)
  have res: "fst (view_students ?w1) = Inr ()"
    using wf by (simp add: view_students_present [OF add(1)])
  have out: "output_of view_students ?w1
      = [Print (LF # ''Roll | Name | Marks''), Print ''-------------------''] @
        map (\<lambda>l. Print (row l)) (file_lines (content w)) @
        [Print (r @ '' | '' @ n @ '' | '' @ m)]"
    by (simp add: view_students_present [OF add(1)] output_of_def tw rl)
  have "Print (r @ '' | '' @ n @ '' | '' @ m) \<in> set (output_of view_students ?w1)"
    unfolding out by simp
  with add(4) res out show ?thesis by blast
qed

theorem add_then_view_students_witness:
  "stdin (stored (''1,A,10'' @ [LF]) [''2'', ''B C'', ''20'']) = ''2'' # ''B C'' # ''20'' # [] \<and>
   terminated (content (stored (''1,A,10'' @ [LF]) [''2'', ''B C'', ''20''])) \<and>
   file_lines (content (stored (''1,A,10'' @ [LF]) [''2'', ''B C'', ''20''])) = [''1,A,10'' @ [LF]] \<and>
   well_formed (''1,A,10'' @ [LF]) \<and>
   no_break ''2'' \<and> no_break ''B C'' \<and> no_break ''20'' \<and>
   no_comma ''2'' \<and> no_comma ''B C'' \<and> no_comma ''20'' \<and>
   no_leading_space ''2'' \<and> no_trailing_space ''20'' \<and>
   fst (view_students (snd (add_student (stored (''1,A,10'' @ [LF]) [''2'', ''B C'', ''20''])))) = Inr () \<and>
   output_of view_students (snd (add_student (stored (''1,A,10'' @ [LF]) [''2'', ''B C'', ''20''])))
     = [Print (LF # ''Roll | Name | Marks''), Print ''-------------------'',
        Print ''1 | A | 10'', Print ''2 | B C | 20'']"
  using add_then_view_students
    [of "stored (''1,A,10'' @ [LF]) [''2'', ''B C'', ''20'']" "''2''" "''B C''" "''20''" "[]"]
  by (simp add: eval_defs)

text \<open>
  Claim C3, as stated, fails when the roll is already stored: after adding
  \<^verbatim>\<open>1,A,10\<close> and then \<^verbatim>\<open>1,B,20\<close>, searching roll \<^verbatim>\<open>1\<close> reports the first record, not the
  record that was just added.
\<close>

theorem search_after_add_duplicate_counterexample:
  "fst (search_student (snd (add_student (snd (add_student
       (fresh [''1'', ''A'', ''10'', ''1'', ''B'', ''20'', ''1'']))))))
     = Inr () \<and>
   students_txt (snd (add_student (snd (add_student
       (fresh [''1'', ''A'', ''10'', ''1'', ''B'', ''20'', ''1''])))))
     = Some (''1,A,10'' @ [LF] @ ''1,B,20'' @ [LF]) \<and>
   output_of search_student (snd (add_student (snd (add_student
       (fresh [''1'', ''A'', ''10'', ''1'', ''B'', ''20'', ''1''])))))
     = [Prompt ''Enter Roll No to search: '', Print ''Found: 1 | A | 10''] \<and>
   Print ''Found: 1 | B | 20''
     \<notin> set (output_of search_student (snd (add_student (snd (add_student
       (fresh [''1'', ''A'', ''10'', ''1'', ''B'', ''20'', ''1'']))))))"
  by (simp add: add_student_result search_student_result output_of_def eval_defs)

text \<open>
  Claim C3, amended. The search reports the first line, in line order, whose roll field
  equals the query, when every line before it unpacks into three fields; whatever follows
  that line is not read. On a store whose lines all unpack and none of which has the
  queried roll it reports \<^verbatim>\<open>Student not found.\<close> After adding fields without comma or
  line break (the roll not beginning, the marks not ending with whitespace) to a
  newline-terminated or absent store whose lines all unpack and none of which has that
  roll, searching the roll reports exactly the added record.
\<close>

theorem search_student_first_match:
  "(stdin w = q # rest \<and> students_txt w = Some c \<and> file_lines c = pre @ l # post \<and>
      (\<forall>p\<in>set pre. well_formed p \<and> roll_of p \<noteq> Some q) \<and> roll_of l = Some q \<longrightarrow>
        fst (search_student w) = Inr () \<and>
        output_of search_student w
          = [Prompt ''Enter Roll No to search: '', Print (found_row l)]) \<and>
   (stdin w = q # rest \<and> students_txt w = Some c \<and>
      (\<forall>p\<in>set (file_lines c). well_formed p \<and> roll_of p \<noteq> Some q) \<longrightarrow>
        fst (search_student w) = Inr () \<and>
        output_of search_student w
          = [Prompt ''Enter Roll No to search: '', Print ''Student not found.'']) \<and>
   (stdin v = r # n # m # r # rest' \<and> terminated (content v) \<and>
      (\<forall>p\<in>set (file_lines (content v)). well_formed p \<and> roll_of p \<noteq> Some r) \<and>
      no_break r \<and> no_break n \<and> no_break m \<and> no_comma r \<and> no_comma n \<and> no_comma m \<and>
      no_leading_space r \<and> no_trailing_space m \<longrightarrow>
        fst (search_student (snd (add_student v))) = Inr () \<and>
        output_of search_student (snd (add_student v))
          = [Prompt ''Enter Roll No to search: '',
             Print (''Found: '' @ r @ '' | '' @ n @ '' | '' @ m)])"
proof (intro conjI)
  show "stdin w = q # rest \<and> students_txt w = Some c \<and> file_lines c = pre @ l # post \<and>
      (\<forall>p\<in>set pre. well_formed p \<and> roll_of p \<noteq> Some q) \<and> roll_of l = Some q \<longrightarrow>
        fst (search_student w) = Inr () \<and>
        output_of search_student w
          = [Prompt ''Enter Roll No to search: '', Print (found_row l)]"
  proof
    assume h: "stdin w = q # rest \<and> students_txt w = Some c \<and> file_lines c = pre @ l # post \<and>
      (\<forall>p\<in>set pre. well_formed p \<and> roll_of p \<noteq> Some q) \<and> roll_of l = Some q"
    show "fst (search_student w) = Inr () \<and>
        output_of search_student w
          = [Prompt ''Enter Roll No to search: '', Print (found_row l)]"
      by (rule search_student_found [of w q rest c pre l post]) (insert h, simp_all)
  qed
  show "stdin w = q # rest \<and> students_txt w = Some c \<and>
      (\<forall>p\<in>set (file_lines c). well_formed p \<and> roll_of p \<noteq> Some q) \<longrightarrow>
        fst (search_student w) = Inr () \<and>
        output_of search_student w
          = [Prompt ''Enter Roll No to search: '', Print ''Student not found.'']"
  proof
    assume h: "stdin w = q # rest \<and> students_txt w = Some c \<and>
      (\<forall>p\<in>set (file_lines c). well_formed p \<and> roll_of p \<noteq> Some q)"
    show "fst (search_student w) = Inr () \<and>
        output_of search_student w
          = [Prompt ''Enter Roll No to search: '', Print ''Student not found.'']"
      by (rule search_student_not_found [of w q rest c]) (insert h, simp_all)
  qed
  show "stdin v = r # n # m # r # rest' \<and> terminated (content v) \<and>
      (\<forall>p\<in>set (file_lines (content v)). well_formed p \<and> roll_of p \<noteq> Some r) \<and>
      no_break r \<and> no_break n \<and> no_break m \<and> no_comma r \<and> no_comma n \<and> no_comma m \<and>
      no_leading_space r \<and> no_trailing_space m \<longrightarrow>
        fst (search_student (snd (add_student v))) = Inr () \<and>
        output_of search_student (snd (add_student v))
          = [Prompt ''Enter Roll No to search: '',
             Print (''Found: '' @ r @ '' | '' @ n @ '' | '' @ m)]"
  proof
    assume h: "stdin v = r # n # m # r # rest' \<and> terminated (content v) \<and>
      (\<forall>p\<in>set (file_lines (content v)). well_formed p \<and> roll_of p \<noteq> Some r) \<and>
      no_break r \<and> no_break n \<and> no_break m \<and> no_comma r \<and> no_comma n \<and> no_comma m \<and>
      no_leading_space r \<and> no_trailing_space m"
    show "fst (search_student (snd (add_student v))) = Inr () \<and>
        output_of search_student (snd (add_student v))
          = [Prompt ''Enter Roll No to search: '',
             Print (''Found: '' @ r @ '' | '' @ n @ '' | '' @ m)]"
      by (rule search_student_after_add [of v r n m rest']) (insert h, simp_all)
  qed
qed

theorem search_student_first_match_witness:
  "file_lines (''1,A,10'' @ [LF] @ ''2,B,20'' @ [LF] @ ''2,C,30'' @ [LF])
     = [''1,A,10'' @ [LF]] @ (''2,B,20'' @ [LF]) # [''2,C,30'' @ [LF]] \<and>
   well_formed (''1,A,10'' @ [LF]) \<and> roll_of (''1,A,10'' @ [LF]) = Some ''1'' \<and>
   roll_of (''2,B,20'' @ [LF]) = Some ''2'' \<and> roll_of (''2,C,30'' @ [LF]) = Some ''2'' \<and>
   output_of search_student
       (stored (''1,A,10'' @ [LF] @ ''2,B,20'' @ [LF] @ ''2,C,30'' @ [LF]) [''2''])
     = [Prompt ''Enter Roll No to search: '', Print ''Found: 2 | B | 20''] \<and>
   output_of search_student
       (stored (''1,A,10'' @ [LF] @ ''2,B,20'' @ [LF] @ ''2,C,30'' @ [LF]) [''7''])
     = [Prompt ''Enter Roll No to search: '', Print ''Student not found.''] \<and>
   output_of search_student (snd (add_student
       (stored (''1,A,10'' @ [LF]) [''3'', ''D'', ''40'', ''3''])))
     = [Prompt ''Enter Roll No to search: '', Print ''Found: 3 | D | 40'']"
  using search_student_first_match
    [of "stored (''1,A,10'' @ [LF] @ ''2,B,20'' @ [LF] @ ''2,C,30'' @ [LF]) [''2'']" "''2''" "[]"
        "''1,A,10'' @ [LF] @ ''2,B,20'' @ [LF] @ ''2,C,30'' @ [LF]"
        "[''1,A,10'' @ [LF]]" "''2,B,20'' @ [LF]" "[''2,C,30'' @ [LF]]"
        "stored (''1,A,10'' @ [LF]) [''3'', ''D'', ''40'', ''3'']" "''3''" "''D''" "''40''" "[]"]
    search_student_first_match
    [of "stored (''1,A,10'' @ [LF] @ ''2,B,20'' @ [LF] @ ''2,C,30'' @ [LF]) [''7'']" "''7''" "[]"
        "''1,A,10'' @ [LF] @ ''2,B,20'' @ [LF] @ ''2,C,30'' @ [LF]"
        "[]" "[]" "[]"
        "stored (''1,A,10'' @ [LF]) [''3'', ''D'', ''40'', ''3'']" "''3''" "''D''" "''40''" "[]"]
  by (simp add: eval_defs)

text \<open>
  Claim C7. Nothing escapes a comma: when some field holds one (and no field holds a line
  break, and the earlier text ended its last line), adding still returns normally and
  reports success, and the line it stored cannot be unpacked into three fields any more.
  Every later listing and deletion ends with \<^verbatim>\<open>ValueError\<close>, and so does a search
  unless an earlier line has the queried roll; neither the listing nor the search ever
  shows the record as it was added.
\<close>

theorem comma_in_field_breaks_reading:
  assumes "stdin w = r # n # m # q # rest"
    and "terminated (content w)"
    and "no_break r" and "no_break n" and "no_break m"
    and "\<not> (no_comma r \<and> no_comma n \<and> no_comma m)"
  shows "fst (add_student w) = Inr () \<and>
         Print ''Student added successfully!'' \<in> set (output_of add_student w) \<and>
         file_lines (content (snd (add_student w)))
           = file_lines (content w) @ [r @ '','' @ n @ '','' @ m @ [LF]] \<and>
         parse_line (r @ '','' @ n @ '','' @ m @ [LF]) = Inl ValueError \<and>
         fst (view_students (snd (add_student w))) = Inl ValueError \<and>
         Print (r @ '' | '' @ n @ '' | '' @ m)
           \<notin> set (output_of view_students (snd (add_student w))) \<and>
         fst (delete_student (snd (add_student w))) = Inl ValueError \<and>
         Print (''Found: '' @ r @ '' | '' @ n @ '' | '' @ m)
           \<notin> set (output_of search_student (snd (add_student w))) \<and>
         ((\<forall>p\<in>set (file_lines (content w)). roll_of p \<noteq> Some q) \<longrightarrow>
            fst (search_student (snd (add_student w))) = Inl ValueError)"
proof -
  let ?w1 = "snd (add_student w)" and ?l = "record_line r n m"
  note add = add_then_lines [OF assms(1,2,3,4,5)]
  have c1: "content ?w1 = content w @ ?l"
    using assms(1) by (rule content_add_student)
  have bad: "\<not> well_formed ?l"
    using assms(6) by (rule record_line_with_comma)
  have ex: "\<exists>l\<in>set (file_lines (content w @ ?l)). \<not> well_formed l"
    unfolding add(2) using bad by simp
  have commas: "filter (\<lambda>c. c = CHR '','') (r @ '' | '' @ n @ '' | '' @ m) \<noteq> []"
    "filter (\<lambda>c. c = CHR '','') (''Found: '' @ r @ '' | '' @ n @ '' | '' @ m) \<noteq> []"
    using assms(6) by (auto simp: no_comma_def filter_empty_conv)
  have 1: "fst (add_student w) = Inr ()" by (rule add(4))
  have 2: "Print ''Student added successfully!'' \<in> set (output_of add_student w)"
    using assms(1) by (simp add: add_student_result output_of_def)
  have 3: "file_lines (content ?w1) = file_lines (content w) @ [r @ '','' @ n @ '','' @ m @ [LF]]"
    unfolding c1 add(2) by (simp add: record_line_def)
  have 4: "parse_line (r @ '','' @ n @ '','' @ m @ [LF]) = Inl ValueError"
    using parse_line_malformed [OF bad] by (simp add: record_line_def)
  have 5: "fst (view_students ?w1) = Inl ValueError"
    using add(1) ex by (rule view_students_malformed)
  have 6: "Print (r @ '' | '' @ n @ '' | '' @ m) \<notin> set (output_of view_students ?w1)"
    using view_prints_no_comma commas(1) by blast
  have 7: "fst (delete_student ?w1) = Inl ValueError"
    using add(3) add(1) ex by (rule delete_student_malformed)
  have 8: "Print (''Found: '' @ r @ '' | '' @ n @ '' | '' @ m)
      \<notin> set (output_of search_student ?w1)"
    using search_prints_no_comma [OF add(3) add(1)] commas(2) by blast
  have 9: "fst (search_student ?w1) = Inl ValueError"
    if h: "\<forall>p\<in>set (file_lines (content w)). roll_of p \<noteq> Some q"
  proof -
    have "roll_of ?l \<noteq> Some q"
      using bad roll_of_well_formed by blast
    with h have "\<forall>p\<in>set (file_lines (content w @ ?l)). roll_of p \<noteq> Some q"
      unfolding add(2) by simp
    with add(3) add(1) show ?thesis using ex by (rule search_student_malformed)
  qed
  from 1 2 3 4 5 6 7 8 9 show ?thesis by (intro conjI impI)
qed

theorem comma_in_field_breaks_reading_witness:
  "stdin (fresh [''1'', ''Doe, John'', ''90'', ''1'']) = ''1'' # ''Doe, John'' # ''90'' # ''1'' # [] \<and>
   terminated (content (fresh [''1'', ''Doe, John'', ''90'', ''1''])) \<and>
   no_break ''1'' \<and> no_break ''Doe, John'' \<and> no_break ''90'' \<and>
   \<not> (no_comma ''1'' \<and> no_comma ''Doe, John'' \<and> no_comma ''90'') \<and>
   fst (add_student (fresh [''1'', ''Doe, John'', ''90'', ''1''])) = Inr () \<and>
   students_txt (snd (add_student (fresh [''1'', ''Doe, John'', ''90'', ''1''])))
     = Some (''1,Doe, John,90'' @ [LF]) \<and>
   parse_line (''1,Doe, John,90'' @ [LF]) = Inl ValueError \<and>
   fst (view_students (snd (add_student (fresh [''1'', ''Doe, John'', ''90'', ''1''])))) = Inl ValueError \<and>
   fst (search_student (snd (add_student (fresh [''1'', ''Doe, John'', ''90'', ''1''])))) = Inl ValueError \<and>
   fst (delete_student (snd (add_student (fresh [''1'', ''Doe, John'', ''90'', ''1''])))) = Inl ValueError"
  using comma_in_field_breaks_reading
    [of "fresh [''1'', ''Doe, John'', ''90'', ''1'']" "''1''" "''Doe, John''" "''90''" "''1''" "[]"]
  by (simp add: add_student_result eval_defs)

end
